theory Spec2Isabelle
  imports
    Complex_Main
    "HOL-Library.Char_ord"
    "HOL-Library.List_Lexorder"
    "HOL-Library.Product_Lexorder"
begin

section \<open>Values of the host language\<close>

text \<open>
  The simulator of \<^verbatim>\<open>src/event_log_generator.py\<close> works on Python floats,
  \<^verbatim>\<open>datetime\<close> instants and strings. A float is modelled by the rational it
  denotes, and every float operation of the source by the exact operation followed by the
  rounding \<open>fl53\<close> to a binary64 value (overflow and subnormal numbers are left out: the
  durations of the simulation are far from both). An instant is its integer number of
  microseconds (the resolution of \<^verbatim>\<open>datetime\<close>); the range limits of
  \<^verbatim>\<open>datetime\<close> are not modelled. Exceptions are values of \<open>error\<close>.
\<close>

datatype error = ValueError string | KeyError string

type_synonym datetime = int

text \<open>Python's \<^verbatim>\<open>round\<close>: to the nearest integer, a tie to the even one.\<close>

definition round_half_even :: "rat \<Rightarrow> int" where
  "round_half_even x =
     (let f = \<lfloor>x\<rfloor>; r = x - of_int f
      in if r < 1 / 2 then f
         else if 1 / 2 < r then f + 1
         else if even f then f else f + 1)"

text \<open>
  The binary64 value nearest to a rational, a tie to the even significand: the rational
  is scaled so that its integer part has 53 bits, rounded and scaled back.
\<close>

function bit_length :: "int \<Rightarrow> nat" where
  "bit_length n = (if n \<le> 0 then 0 else Suc (bit_length (n div 2)))"
  by pat_completeness auto
termination
  by (relation "measure nat") auto

declare bit_length.simps [simp del]

definition pow2 :: "int \<Rightarrow> rat" where
  "pow2 n = (if 0 \<le> n then 2 ^ nat n else 1 / 2 ^ nat (- n))"

definition ilog2 :: "rat \<Rightarrow> int" where
  "ilog2 y =
     (if 1 \<le> \<bar>y\<bar> then int (bit_length \<lfloor>\<bar>y\<bar>\<rfloor>) - 1
      else - int (bit_length (\<lceil>1 / \<bar>y\<bar>\<rceil> - 1)))"

definition fl53 :: "rat \<Rightarrow> rat" where
  "fl53 y =
     (if y = 0 then 0
      else of_int (round_half_even (y / pow2 (ilog2 y - 52))) * pow2 (ilog2 y - 52))"

text \<open>
  \<^verbatim>\<open>round(x, 2)\<close> on a float: the decimal with two places nearest to the exact
  value of \<open>x\<close> (the recorded value is the float that prints as this decimal).
\<close>

definition round2 :: "rat \<Rightarrow> rat" where
  "round2 x = of_int (round_half_even (x * 100)) / 100"

text \<open>
  \<^verbatim>\<open>timedelta(minutes=x)\<close> for a float \<open>x\<close>, a whole number of microseconds: the
  integer part of \<open>x\<close> is converted exactly, the fractional part is multiplied by
  60000000 as a float and rounded to the nearest integer, a tie to the even one.
\<close>

definition timedelta_minutes :: "rat \<Rightarrow> int" where
  "timedelta_minutes x =
     (let ip = (if 0 \<le> x then \<lfloor>x\<rfloor> else \<lceil>x\<rceil>)
      in ip * 60000000 + round_half_even (fl53 (60000000 * (x - of_int ip))))"

text \<open>
  \<^verbatim>\<open>td.total_seconds() / 60\<close> for a difference of two instants: two float
  divisions.
\<close>

definition total_minutes :: "int \<Rightarrow> rat" where
  "total_minutes us = fl53 (fl53 (of_int us / 1000000) / 60)"

text \<open>\<^verbatim>\<open>str(n)\<close> for a natural number, and zero padding to width 4 (\<^verbatim>\<open>{n:04d}\<close>).\<close>

definition digit_char :: "nat \<Rightarrow> char" where
  "digit_char d = ''0123456789'' ! d"

function str_nat :: "nat \<Rightarrow> string" where
  "str_nat n = (if n < 10 then [digit_char n] else str_nat (n div 10) @ [digit_char (n mod 10)])"
  by pat_completeness auto
termination
  by (relation "measure id") auto

declare str_nat.simps [simp del]

definition zfill4 :: "string \<Rightarrow> string" where
  "zfill4 s = replicate (4 - length s) CHR ''0'' @ s"

text \<open>\<^verbatim>\<open>xs.index(x)\<close>: the first position of \<open>x\<close>, ValueError when absent.\<close>

fun list_index :: "'a list \<Rightarrow> 'a \<Rightarrow> nat option" where
  "list_index [] x = None"
| "list_index (y # ys) x = (if y = x then Some 0 else map_option Suc (list_index ys x))"

text \<open>
  \<^verbatim>\<open>min(range(len(ws)), key=lambda i: ws[i])\<close>: the candidate changes only when
  a strictly smaller key is met, so the lowest index wins a tie; an empty range raises
  ValueError.
\<close>

definition min_index :: "int list \<Rightarrow> nat option" where
  "min_index ws =
     (if ws = [] then None
      else Some (foldl (\<lambda>b i. if ws ! i < ws ! b then i else b) 0 [1..<length ws]))"

section \<open>Operation catalog (\<^verbatim>\<open>src/operations.py\<close>)\<close>

record operation =
  op_id :: string
  name :: string
  name_fr :: string
  avg_duration_minutes :: rat
  std_deviation_minutes :: rat
  setup_time_minutes :: rat
  defect_rate :: rat
  workstation_count :: int

text \<open>
  The module-level configuration, gathered in one record so that the simulator can be
  studied on the shipped catalog and on other ones.
\<close>

record config =
  operations :: "operation list"
  operation_sequence :: "string list"
  rework_routes :: "string \<rightharpoonup> string"

text \<open>A character of a display name is its code point (all are below 256).\<close>

definition OPERATIONS :: "operation list" where
  "OPERATIONS =
    [\<lparr>op_id = ''OP1'', name = ''Raw Material Preparation'',
      name_fr = ''Pr'' @ [CHR 0xE9] @ ''paration Mati'' @ [CHR 0xE8] @ ''re Premi'' @ [CHR 0xE8] @ ''re'',
      avg_duration_minutes = 15, std_deviation_minutes = 3, setup_time_minutes = 5,
      defect_rate = 2 / 100, workstation_count = 2\<rparr>,
     \<lparr>op_id = ''OP2'', name = ''CNC Machining'', name_fr = ''Usinage CNC'',
      avg_duration_minutes = 45, std_deviation_minutes = 8, setup_time_minutes = 10,
      defect_rate = 5 / 100, workstation_count = 3\<rparr>,
     \<lparr>op_id = ''OP3'', name = ''Heat Treatment'', name_fr = ''Traitement Thermique'',
      avg_duration_minutes = 90, std_deviation_minutes = 10, setup_time_minutes = 15,
      defect_rate = 3 / 100, workstation_count = 1\<rparr>,
     \<lparr>op_id = ''OP4'', name = ''Surface Finishing'', name_fr = ''Finition de Surface'',
      avg_duration_minutes = 30, std_deviation_minutes = 5, setup_time_minutes = 8,
      defect_rate = 4 / 100, workstation_count = 2\<rparr>,
     \<lparr>op_id = ''OP5'', name = ''Quality Control'', name_fr = ''Contr'' @ [CHR 0xF4] @ ''le Qualit'' @ [CHR 0xE9],
      avg_duration_minutes = 20, std_deviation_minutes = 4, setup_time_minutes = 3,
      defect_rate = 0, workstation_count = 2\<rparr>,
     \<lparr>op_id = ''OP6'', name = ''Assembly & Packaging'',
      name_fr = ''Assemblage et Conditionnement'',
      avg_duration_minutes = 25, std_deviation_minutes = 5, setup_time_minutes = 5,
      defect_rate = 2 / 100, workstation_count = 2\<rparr>]"

definition OPERATION_SEQUENCE :: "string list" where
  "OPERATION_SEQUENCE = [''OP1'', ''OP2'', ''OP3'', ''OP4'', ''OP5'', ''OP6'']"

definition REWORK_ROUTES :: "string \<rightharpoonup> string" where
  "REWORK_ROUTES = [''OP2'' \<mapsto> ''OP2'', ''OP3'' \<mapsto> ''OP3'', ''OP4'' \<mapsto> ''OP4'']"

definition catalog :: config where
  "catalog = \<lparr>operations = OPERATIONS, operation_sequence = OPERATION_SEQUENCE,
     rework_routes = REWORK_ROUTES\<rparr>"

definition get_operation_by_id :: "config \<Rightarrow> string \<Rightarrow> error + operation" where
  "get_operation_by_id cfg i =
     (case find (\<lambda>op. op_id op = i) (operations cfg) of
        Some op \<Rightarrow> Inr op
      | None \<Rightarrow> Inl (ValueError (''Operation not found: '' @ i)))"

definition get_operation_index :: "config \<Rightarrow> string \<Rightarrow> error + nat" where
  "get_operation_index cfg i =
     (case list_index (operation_sequence cfg) i of
        Some k \<Rightarrow> Inr k
      | None \<Rightarrow> Inl (ValueError ([CHR 0x27] @ i @ [CHR 0x27] @ '' is not in list'')))"

section \<open>Random number generators\<close>

text \<open>
  The source draws from two global generators, Python's \<^verbatim>\<open>random\<close> and NumPy's
  legacy \<^verbatim>\<open>np.random\<close>. Their code is not part of the repository: the model
  takes them as a parameter, each a state machine over a state type of its own.
\<close>

record ('r, 'g) rng =
  random_seed :: "int \<Rightarrow> 'r"
  random_random :: "'r \<Rightarrow> rat \<times> 'r"
  np_seed :: "int \<Rightarrow> 'g"
  np_exponential :: "rat \<Rightarrow> 'g \<Rightarrow> rat \<times> 'g"
  np_normal :: "rat \<Rightarrow> rat \<Rightarrow> 'g \<Rightarrow> rat \<times> 'g"

section \<open>Discrete-event simulator (\<^verbatim>\<open>src/event_log_generator.py\<close>)\<close>

text \<open>
  One row of the list \<^verbatim>\<open>events\<close>. The key \<^verbatim>\<open>setup_time_minutes\<close> of
  the row is the field \<open>ev_setup_time_minutes\<close>, the catalog having a field of that name
  already.
\<close>

record event =
  case_id :: string
  activity :: string
  activity_fr :: string
  operation_id :: string
  timestamp_start :: datetime
  timestamp_end :: datetime
  resource :: string
  is_rework :: bool
  rework_count :: nat
  wait_time_minutes :: rat
  cycle_time_minutes :: rat
  ev_setup_time_minutes :: rat
  total_time_minutes :: rat
  defect_detected :: bool

text \<open>A row of the returned table: the event and the derived column.\<close>

record log_row = event +
  duration_minutes :: rat

text \<open>
  The variables of \<^verbatim>\<open>generate_event_log\<close>: those of the whole run (the event
  list, the workstation pool, the arrival clock, the two generators) and those of the
  case being simulated.
\<close>

record ('r, 'g) sim =
  events :: "event list"
  workstation_availability :: "string \<rightharpoonup> datetime list"
  case_arrival_time :: datetime
  py_random :: 'r
  np_random :: 'g
  cur_case_id :: string
  current_time :: datetime
  operation_counts :: "string \<rightharpoonup> nat"
  defects_by_op :: "(string \<times> bool) list"
  op_idx :: int

text \<open>
  An exception leaves the function with the state reached so far (the generators are
  global, so what was drawn stays drawn).
\<close>

type_synonym ('r, 'g) outcome = "(error \<times> ('r, 'g) sim) + ('r, 'g) sim"

text \<open>\<^verbatim>\<open>d[k] = v\<close> on a dict: an existing key keeps its position, a new one goes last.\<close>

fun dict_set :: "'k \<Rightarrow> 'v \<Rightarrow> ('k \<times> 'v) list \<Rightarrow> ('k \<times> 'v) list" where
  "dict_set k v [] = [(k, v)]"
| "dict_set k v ((k', v') # r) =
     (if k' = k then (k, v) # r else (k', v') # dict_set k v r)"

text \<open>
  The scan of the inspection stage over \<^verbatim>\<open>defects_by_op.items()\<close>: a draw is made
  only for an entry whose flag is set, and the first draw below 0.8 ends the scan.
\<close>

fun inspect :: "('r \<Rightarrow> rat \<times> 'r) \<Rightarrow> (string \<times> bool) list \<Rightarrow> 'r \<Rightarrow> string option \<times> 'r" where
  "inspect rnd [] g = (None, g)"
| "inspect rnd ((k, had_defect) # rest) g =
     (if had_defect
      then (case rnd g of (u, g') \<Rightarrow>
              if u < 8 / 10 then (Some k, g') else inspect rnd rest g')
      else inspect rnd rest g)"

text \<open>
  Lines 100 to 115: at \<^verbatim>\<open>"OP5"\<close> the latent defects are inspected and a detection
  sets \<^verbatim>\<open>op_idx\<close> to the rework target's index minus one; elsewhere a latent defect
  may be recorded. The result is the flag \<^verbatim>\<open>defect_detected\<close> and the new state.
\<close>

definition defect_step ::
  "('r, 'g) rng \<Rightarrow> config \<Rightarrow> string \<Rightarrow> operation \<Rightarrow> ('r, 'g) sim \<Rightarrow>
     (error \<times> ('r, 'g) sim) + (bool \<times> ('r, 'g) sim)" where
  "defect_step R cfg opid op s =
     (if opid = ''OP5'' then
        (case inspect (random_random R) (defects_by_op s) (py_random s) of
           (None, g) \<Rightarrow> Inr (False, s\<lparr>py_random := g\<rparr>)
         | (Some prev_op_id, g) \<Rightarrow>
             (let s' = s\<lparr>py_random := g\<rparr>;
                  rework_op = (case rework_routes cfg prev_op_id of
                                 Some r \<Rightarrow> r | None \<Rightarrow> prev_op_id)
              in case get_operation_index cfg rework_op of
                   Inl e \<Rightarrow> Inl (e, s')
                 | Inr i \<Rightarrow>
                     Inr (True, s'\<lparr>op_idx := int i - 1,
                                  defects_by_op := dict_set prev_op_id False (defects_by_op s')\<rparr>)))
      else
        (case random_random R (py_random s) of
           (u, g) \<Rightarrow>
             (let s' = s\<lparr>py_random := g\<rparr>
              in Inr (False,
                   if u < defect_rate op
                   then s'\<lparr>defects_by_op := dict_set opid True (defects_by_op s')\<rparr>
                   else s'))))"

text \<open>One iteration of the \<^verbatim>\<open>while\<close> loop (lines 76 to 137).\<close>

definition visit :: "('r, 'g) rng \<Rightarrow> config \<Rightarrow> ('r, 'g) sim \<Rightarrow> ('r, 'g) outcome" where
  "visit R cfg s =
     (let opid = operation_sequence cfg ! nat (op_idx s)
      in case get_operation_by_id cfg opid of
           Inl e \<Rightarrow> Inl (e, s)
         | Inr op \<Rightarrow>
      (case operation_counts s opid of
           None \<Rightarrow> Inl (KeyError opid, s)
         | Some c \<Rightarrow>
      (let s1 = s\<lparr>operation_counts := (operation_counts s)(opid \<mapsto> c + 1)\<rparr>
       in case workstation_availability s1 opid of
            None \<Rightarrow> Inl (KeyError opid, s1)
          | Some ws_availability \<Rightarrow>
       (case min_index ws_availability of
            None \<Rightarrow> Inl (ValueError ''min() arg is an empty sequence'', s1)
          | Some earliest_ws_idx \<Rightarrow>
       (case np_normal R (avg_duration_minutes op) (std_deviation_minutes op) (np_random s1) of
            (x, g) \<Rightarrow>
       (let earliest_available = ws_availability ! earliest_ws_idx;
            wait_time = max 0 (total_minutes (earliest_available - current_time s1));
            operation_start = max (current_time s1) earliest_available;
            cycle_time = max 5 x;
            total_time = fl53 (cycle_time + setup_time_minutes op);
            operation_end = operation_start + timedelta_minutes total_time;
            s2 = s1\<lparr>np_random := g,
                    workstation_availability := (workstation_availability s1)
                      (opid \<mapsto> ws_availability[earliest_ws_idx := operation_end])\<rparr>
        in case defect_step R cfg opid op s2 of
             Inl e \<Rightarrow> Inl e
           | Inr (detected, s3) \<Rightarrow>
               Inr (s3\<lparr>events := events s3 @
                      [\<lparr>case_id = cur_case_id s3,
                        activity = name op,
                        activity_fr = name_fr op,
                        operation_id = opid,
                        timestamp_start = operation_start,
                        timestamp_end = operation_end,
                        resource = opid @ ''_WS'' @ str_nat (earliest_ws_idx + 1),
                        is_rework = (1 < c + 1),
                        rework_count = c + 1,
                        wait_time_minutes = round2 wait_time,
                        cycle_time_minutes = round2 cycle_time,
                        ev_setup_time_minutes = round2 (setup_time_minutes op),
                        total_time_minutes = round2 total_time,
                        defect_detected = detected\<rparr>],
                      current_time := operation_end,
                      op_idx := op_idx s3 + 1\<rparr>)))))))"

text \<open>
  The \<^verbatim>\<open>while\<close> loop of one case. Nothing bounds the number of its iterations, so
  it is a partial function: \<open>None\<close> is a loop that never ends.
\<close>

partial_function (option) traverse ::
  "('r, 'g) rng \<Rightarrow> config \<Rightarrow> ('r, 'g) sim \<Rightarrow> ('r, 'g) outcome option" where
  "traverse R cfg s =
     (if op_idx s < int (length (operation_sequence cfg))
      then (case visit R cfg s of
              Inl e \<Rightarrow> Some (Inl e)
            | Inr s' \<Rightarrow> traverse R cfg s')
      else Some (Inr s))"

declare traverse.simps [code]

text \<open>
  Lines 62 to 74 for case number \<open>case_number\<close>: the identifier, the arrival draw and
  the fresh variables of the case.
\<close>

definition begin_case :: "('r, 'g) rng \<Rightarrow> config \<Rightarrow> ('r, 'g) sim \<Rightarrow> nat \<Rightarrow> ('r, 'g) sim" where
  "begin_case R cfg s case_number =
     (case np_exponential R 30 (np_random s) of
        (inter_arrival_minutes, g) \<Rightarrow>
          (let arrival = case_arrival_time s + timedelta_minutes inter_arrival_minutes
           in s\<lparr>np_random := g,
                case_arrival_time := arrival,
                cur_case_id := ''CASE-'' @ zfill4 (str_nat case_number),
                current_time := arrival,
                operation_counts := map_of (map (\<lambda>i. (i, 0)) (operation_sequence cfg)),
                defects_by_op := [],
                op_idx := 0\<rparr>))"

text \<open>The body of the \<^verbatim>\<open>for\<close> loop (lines 62 to 137).\<close>

definition simulate_case ::
  "('r, 'g) rng \<Rightarrow> config \<Rightarrow> ('r, 'g) sim \<Rightarrow> nat \<Rightarrow> ('r, 'g) outcome option" where
  "simulate_case R cfg s case_number = traverse R cfg (begin_case R cfg s case_number)"

fun run_cases ::
  "('r, 'g) rng \<Rightarrow> config \<Rightarrow> ('r, 'g) sim \<Rightarrow> nat list \<Rightarrow> ('r, 'g) outcome option" where
  "run_cases R cfg s [] = Some (Inr s)"
| "run_cases R cfg s (n # ns) =
     (case simulate_case R cfg s n of
        None \<Rightarrow> None
      | Some (Inl e) \<Rightarrow> Some (Inl e)
      | Some (Inr s') \<Rightarrow> run_cases R cfg s' ns)"

text \<open>
  Lines 51 to 59: the empty event list, the pool with every slot free at
  \<^verbatim>\<open>start_date\<close> (a later catalog entry with the same identifier replaces an
  earlier one, as the dict assignment does), and the arrival clock. The variables of a
  case do not exist yet; their values here are never read.
\<close>

definition initial_sim ::
  "config \<Rightarrow> datetime \<Rightarrow> 'r \<Rightarrow> 'g \<Rightarrow> ('r, 'g) sim" where
  "initial_sim cfg start_date r g =
     \<lparr>events = [],
      workstation_availability =
        foldl (\<lambda>m op. m(op_id op \<mapsto> replicate (nat (workstation_count op)) start_date))
          Map.empty (operations cfg),
      case_arrival_time = start_date,
      py_random = r,
      np_random = g,
      cur_case_id = [],
      current_time = start_date,
      operation_counts = Map.empty,
      defects_by_op = [],
      op_idx = 0\<rparr>"

text \<open>Lines 48 to 137: seeding, initialisation and the loop over the cases.\<close>

definition simulate ::
  "('r, 'g) rng \<Rightarrow> config \<Rightarrow> 'r \<times> 'g \<Rightarrow> int \<Rightarrow> datetime \<Rightarrow> int \<Rightarrow> ('r, 'g) outcome option" where
  "simulate R cfg w num_cases start_date seed =
     (let r = random_seed R seed
      in if seed < 0 \<or> 2 ^ 32 \<le> seed
         then Some (Inl (ValueError ''Seed must be between 0 and 2**32 - 1'',
                initial_sim cfg start_date r (snd w)))
         else run_cases R cfg (initial_sim cfg start_date r (np_seed R seed))
                (map nat [1..num_cases]))"

definition add_duration :: "event \<Rightarrow> log_row" where
  "add_duration e =
     \<lparr>case_id = case_id e, activity = activity e, activity_fr = activity_fr e,
      operation_id = operation_id e, timestamp_start = timestamp_start e,
      timestamp_end = timestamp_end e, resource = resource e, is_rework = is_rework e,
      rework_count = rework_count e, wait_time_minutes = wait_time_minutes e,
      cycle_time_minutes = cycle_time_minutes e,
      ev_setup_time_minutes = ev_setup_time_minutes e,
      total_time_minutes = total_time_minutes e, defect_detected = defect_detected e,
      duration_minutes = total_minutes (timestamp_end e - timestamp_start e)\<rparr>"

text \<open>
  Lines 139 to 148. A table built from no row has no column, and sorting it by
  \<^verbatim>\<open>timestamp_start\<close> raises KeyError. The result is the outcome and the state of
  the two global generators after the call.
\<close>

definition generate_event_log ::
  "('r, 'g) rng \<Rightarrow> config \<Rightarrow> 'r \<times> 'g \<Rightarrow> int \<Rightarrow> datetime \<Rightarrow> int \<Rightarrow>
     ((error + log_row list) \<times> ('r \<times> 'g)) option" where
  "generate_event_log R cfg w num_cases start_date seed =
     (case simulate R cfg w num_cases start_date seed of
        None \<Rightarrow> None
      | Some (Inl (e, s)) \<Rightarrow> Some (Inl e, (py_random s, np_random s))
      | Some (Inr s) \<Rightarrow>
          Some (if events s = [] then Inl (KeyError ''timestamp_start'')
                else Inr (map add_duration
                       (sort_key (\<lambda>e. (timestamp_start e, case_id e)) (events s))),
                (py_random s, np_random s)))"

section \<open>Reading identifiers back\<close>

text \<open>The number written by a string of decimal digits, to tell identifiers apart.\<close>

definition digit_val :: "char \<Rightarrow> nat" where
  "digit_val c = (case list_index ''0123456789'' c of Some d \<Rightarrow> d | None \<Rightarrow> 0)"

definition val_of :: "string \<Rightarrow> nat" where
  "val_of s = foldl (\<lambda>a c. 10 * a + digit_val c) 0 s"

section \<open>A scripted generator\<close>

text \<open>
  A generator for concrete runs: \<^verbatim>\<open>random.random()\<close> replays the list \<open>us\<close> and
  then returns \<open>d\<close> for ever, the exponential draw returns its scale and the normal draw
  the float nearest to its mean plus \<open>delta\<close>.
\<close>

definition replay_rng :: "rat list \<Rightarrow> rat \<Rightarrow> rat \<Rightarrow> (rat list, unit) rng" where
  "replay_rng us d delta =
     \<lparr>random_seed = (\<lambda>_. us),
      random_random = (\<lambda>g. case g of [] \<Rightarrow> (d, []) | u # r \<Rightarrow> (u, r)),
      np_seed = (\<lambda>_. ()),
      np_exponential = (\<lambda>scale g. (scale, g)),
      np_normal = (\<lambda>mu sigma g. (fl53 (mu + delta), g))\<rparr>"

text \<open>The rows of a run that returned a table (no row otherwise).\<close>

definition rows_of :: "((error + log_row list) \<times> 'w) option \<Rightarrow> log_row list" where
  "rows_of r = (case r of Some (Inr rows, _) \<Rightarrow> rows | _ \<Rightarrow> [])"

section \<open>Invariant rules for the loops\<close>

lemma traverse_rule:
  assumes run: "traverse R cfg s = Some r"
    and init: "I s"
    and step: "\<And>u v. I u \<Longrightarrow> op_idx u < int (length (operation_sequence cfg)) \<Longrightarrow>
                 visit R cfg u = Inr v \<Longrightarrow> I v"
  shows "case r of
           Inr t \<Rightarrow> I t \<and> \<not> op_idx t < int (length (operation_sequence cfg))
         | Inl (e, t) \<Rightarrow> (\<exists>u. I u \<and> op_idx u < int (length (operation_sequence cfg)) \<and>
                             visit R cfg u = Inl (e, t))"
proof -
  let ?Q = "\<lambda>r. case r of
           Inr t \<Rightarrow> I t \<and> \<not> op_idx t < int (length (operation_sequence cfg))
         | Inl (e, t) \<Rightarrow> (\<exists>u. I u \<and> op_idx u < int (length (operation_sequence cfg)) \<and>
                             visit R cfg u = Inl (e, t))"
  have main: "R' = R \<longrightarrow> cfg' = cfg \<longrightarrow> I s' \<longrightarrow> ?Q r'"
    if t: "traverse R' cfg' s' = Some r'" for R' cfg' s' r'
  proof (rule traverse.raw_induct
      [where P = "\<lambda>R' cfg' s' r'. R' = R \<longrightarrow> cfg' = cfg \<longrightarrow> I s' \<longrightarrow> ?Q r'", OF _ t])
    fix trav :: "('a, 'b) rng \<Rightarrow> config \<Rightarrow> ('a, 'b) sim \<Rightarrow> ('a, 'b) outcome option"
    fix R' cfg' s' r'
    assume IH: "\<And>a b c y. trav a b c = Some y \<Longrightarrow> a = R \<longrightarrow> b = cfg \<longrightarrow> I c \<longrightarrow> ?Q y"
      and body: "(if op_idx s' < int (length (operation_sequence cfg'))
           then case visit R' cfg' s' of Inl e \<Rightarrow> Some (Inl e) | Inr s'' \<Rightarrow> trav R' cfg' s''
           else Some (Inr s')) = Some r'"
    show "R' = R \<longrightarrow> cfg' = cfg \<longrightarrow> I s' \<longrightarrow> ?Q r'"
    proof (intro impI)
      assume eq: "R' = R" "cfg' = cfg" and inv: "I s'"
      show "?Q r'"
      proof (cases "op_idx s' < int (length (operation_sequence cfg))")
        case False
        with body eq inv show ?thesis by auto
      next
        case True
        show ?thesis
        proof (cases "visit R cfg s'")
          case (Inl a)
          with body eq True inv show ?thesis by (cases a) auto
        next
          case (Inr v)
          with body eq True have "trav R cfg v = Some r'" by simp
          moreover have "I v" using step [OF inv True Inr] .
          ultimately show ?thesis using IH [of R cfg v r'] by simp
        qed
      qed
    qed
  qed
  from main [OF run] init show ?thesis by simp
qed

lemma run_cases_rule:
  assumes run: "run_cases R cfg s ns = Some (Inr t)"
    and init: "J ds s"
    and step: "\<And>u v n ds' rest. ds @ ns = ds' @ n # rest \<Longrightarrow> J ds' u \<Longrightarrow>
                 simulate_case R cfg u n = Some (Inr v) \<Longrightarrow> J (ds' @ [n]) v"
  shows "J (ds @ ns) t"
  using run init step
proof (induction ns arbitrary: s ds)
  case Nil
  then show ?case by simp
next
  case (Cons n ns)
  from Cons.prems(1) obtain v where v: "simulate_case R cfg s n = Some (Inr v)"
    and rest: "run_cases R cfg v ns = Some (Inr t)"
    by (auto split: option.splits sum.splits)
  have "J (ds @ [n]) v" using Cons.prems(3) [OF _ Cons.prems(2) v] by simp
  moreover have "\<And>u v m ds' rest. (ds @ [n]) @ ns = ds' @ m # rest \<Longrightarrow> J ds' u \<Longrightarrow>
                 simulate_case R cfg u m = Some (Inr v) \<Longrightarrow> J (ds' @ [m]) v"
    using Cons.prems(3) by simp
  ultimately have "J ((ds @ [n]) @ ns) t" using Cons.IH [OF rest] by blast
  then show ?case by simp
qed

text \<open>An invariant of the whole simulation.\<close>

lemma simulate_rule:
  assumes run: "simulate R cfg w num_cases start_date seed = Some (Inr t)"
    and init: "\<And>r g. I [] (initial_sim cfg start_date r g)"
    and start: "\<And>ds u n. I ds u \<Longrightarrow> n \<notin> set ds \<Longrightarrow> I (ds @ [n]) (begin_case R cfg u n)"
    and step: "\<And>ds u v. ds \<noteq> [] \<Longrightarrow> I ds u \<Longrightarrow>
                 op_idx u < int (length (operation_sequence cfg)) \<Longrightarrow>
                 visit R cfg u = Inr v \<Longrightarrow> I ds v"
  shows "I (map nat [1..num_cases]) t"
proof -
  let ?ns = "map nat [1..num_cases]"
  have dist: "distinct ?ns"
    by (auto simp: distinct_map inj_on_def)
  from run obtain s0 where s0: "I [] s0" and rc: "run_cases R cfg s0 ?ns = Some (Inr t)"
    unfolding simulate_def using init by (auto simp: Let_def split: if_splits)
  have "I ([] @ ?ns) t"
  proof (rule run_cases_rule [OF rc, where J = I and ds = "[]", OF s0])
    fix u v n ds' rest
    assume split: "[] @ ?ns = ds' @ n # rest" and inv: "I ds' u"
      and sc: "simulate_case R cfg u n = Some (Inr v)"
    from split dist have "distinct (ds' @ n # rest)" by simp
    then have fresh: "n \<notin> set ds'" by simp
    have b: "I (ds' @ [n]) (begin_case R cfg u n)" using start [OF inv fresh] .
    from sc have tr: "traverse R cfg (begin_case R cfg u n) = Some (Inr v)"
      by (simp add: simulate_case_def)
    have st: "\<And>u v. I (ds' @ [n]) u \<Longrightarrow> op_idx u < int (length (operation_sequence cfg)) \<Longrightarrow>
                 visit R cfg u = Inr v \<Longrightarrow> I (ds' @ [n]) v"
      using step by simp
    from traverse_rule [OF tr, where I = "I (ds' @ [n])", OF b st]
    show "I (ds' @ [n]) v" by simp
  qed
  then show ?thesis by simp
qed

section \<open>One visit\<close>

lemma foldl_pick_bound:
  "\<forall>i \<in> set js. i < n \<Longrightarrow> b < n \<Longrightarrow>
     foldl (\<lambda>b i. if (ws :: int list) ! i < ws ! b then i else b) b js < n"
  by (induction js arbitrary: b) auto

lemma min_index_bound: "min_index ws = Some k \<Longrightarrow> k < length ws"
  unfolding min_index_def
  by (auto split: if_splits intro!: foldl_pick_bound)

lemma defect_step_frame:
  assumes "defect_step R cfg opid op s = Inr (d, s')"
  shows "events s' = events s \<and> workstation_availability s' = workstation_availability s \<and>
         cur_case_id s' = cur_case_id s \<and> current_time s' = current_time s \<and>
         operation_counts s' = operation_counts s \<and>
         case_arrival_time s' = case_arrival_time s \<and> np_random s' = np_random s \<and>
         (d \<longrightarrow> opid = ''OP5'')"
  using assms unfolding defect_step_def
  by (auto simp: Let_def split: if_splits prod.splits option.splits sum.splits)

lemma visit_InrE:
  assumes "visit R cfg s = Inr s'"
  obtains op c ws k x g e where
    "get_operation_by_id cfg (operation_sequence cfg ! nat (op_idx s)) = Inr op"
    "operation_counts s (operation_sequence cfg ! nat (op_idx s)) = Some c"
    "workstation_availability s (operation_sequence cfg ! nat (op_idx s)) = Some ws"
    "min_index ws = Some k"
    "np_normal R (avg_duration_minutes op) (std_deviation_minutes op) (np_random s) = (x, g)"
    "events s' = events s @ [e]"
    "case_id e = cur_case_id s"
    "operation_id e = operation_sequence cfg ! nat (op_idx s)"
    "timestamp_start e = max (current_time s) (ws ! k)"
    "timestamp_end e = timestamp_start e + timedelta_minutes (fl53 (max 5 x + setup_time_minutes op))"
    "resource e = operation_id e @ ''_WS'' @ str_nat (k + 1)"
    "is_rework e = (1 < c + 1)"
    "rework_count e = c + 1"
    "wait_time_minutes e = round2 (max 0 (total_minutes (ws ! k - current_time s)))"
    "cycle_time_minutes e = round2 (max 5 x)"
    "ev_setup_time_minutes e = round2 (setup_time_minutes op)"
    "total_time_minutes e = round2 (fl53 (max 5 x + setup_time_minutes op))"
    "defect_detected e \<longrightarrow> operation_id e = ''OP5''"
    "workstation_availability s' =
       (workstation_availability s)(operation_id e \<mapsto> ws[k := timestamp_end e])"
    "current_time s' = timestamp_end e"
    "cur_case_id s' = cur_case_id s"
    "case_arrival_time s' = case_arrival_time s"
    "operation_counts s' = (operation_counts s)(operation_id e \<mapsto> c + 1)"
proof -
  let ?opid = "operation_sequence cfg ! nat (op_idx s)"
  obtain op where op: "get_operation_by_id cfg ?opid = Inr op"
  proof (cases "get_operation_by_id cfg ?opid")
    case (Inl a)
    with assms show ?thesis by (simp add: visit_def Let_def)
  qed
  obtain c where c: "operation_counts s ?opid = Some c"
  proof (cases "operation_counts s ?opid")
    case None
    with assms op show ?thesis by (simp add: visit_def Let_def)
  qed
  obtain ws where ws: "workstation_availability s ?opid = Some ws"
  proof (cases "workstation_availability s ?opid")
    case None
    with assms op c show ?thesis by (simp add: visit_def Let_def)
  qed
  obtain k where k: "min_index ws = Some k"
  proof (cases "min_index ws")
    case None
    with assms op c ws show ?thesis by (simp add: visit_def Let_def)
  qed
  obtain x g where xg:
    "np_normal R (avg_duration_minutes op) (std_deviation_minutes op) (np_random s) = (x, g)"
    by (cases "np_normal R (avg_duration_minutes op) (std_deviation_minutes op) (np_random s)")
  let ?start = "max (current_time s) (ws ! k)"
  let ?end = "?start + timedelta_minutes (fl53 (max 5 x + setup_time_minutes op))"
  let ?s2 = "s\<lparr>operation_counts := (operation_counts s)(?opid \<mapsto> c + 1),
               np_random := g,
               workstation_availability := (workstation_availability s)(?opid \<mapsto> ws[k := ?end])\<rparr>"
  have unf: "visit R cfg s =
      (case defect_step R cfg ?opid op ?s2 of
         Inl e \<Rightarrow> Inl e
       | Inr (detected, s3) \<Rightarrow>
           Inr (s3\<lparr>events := events s3 @
                  [\<lparr>case_id = cur_case_id s3, activity = name op, activity_fr = name_fr op,
                    operation_id = ?opid, timestamp_start = ?start, timestamp_end = ?end,
                    resource = ?opid @ ''_WS'' @ str_nat (k + 1),
                    is_rework = (1 < c + 1), rework_count = c + 1,
                    wait_time_minutes = round2 (max 0 (total_minutes (ws ! k - current_time s))),
                    cycle_time_minutes = round2 (max 5 x),
                    ev_setup_time_minutes = round2 (setup_time_minutes op),
                    total_time_minutes = round2 (fl53 (max 5 x + setup_time_minutes op)),
                    defect_detected = detected\<rparr>],
                  current_time := ?end, op_idx := op_idx s3 + 1\<rparr>))"
    using op c ws k xg by (simp add: visit_def Let_def)
  obtain d s3 where ds: "defect_step R cfg ?opid op ?s2 = Inr (d, s3)"
  proof (cases "defect_step R cfg ?opid op ?s2")
    case (Inl a)
    with assms unf show ?thesis by simp
  next
    case (Inr b)
    with that show ?thesis by (cases b) auto
  qed
  note fr = defect_step_frame [OF ds]
  let ?e = "\<lparr>case_id = cur_case_id s3, activity = name op, activity_fr = name_fr op,
                    operation_id = ?opid, timestamp_start = ?start, timestamp_end = ?end,
                    resource = ?opid @ ''_WS'' @ str_nat (k + 1),
                    is_rework = (1 < c + 1), rework_count = c + 1,
                    wait_time_minutes = round2 (max 0 (total_minutes (ws ! k - current_time s))),
                    cycle_time_minutes = round2 (max 5 x),
                    ev_setup_time_minutes = round2 (setup_time_minutes op),
                    total_time_minutes = round2 (fl53 (max 5 x + setup_time_minutes op)),
                    defect_detected = d\<rparr>"
  have "visit R cfg s = Inr (s3\<lparr>events := events s3 @ [?e],
                  current_time := ?end, op_idx := op_idx s3 + 1\<rparr>)"
    by (simp only: unf ds sum.case prod.case)
  with assms have s': "s' = s3\<lparr>events := events s3 @ [?e],
                  current_time := ?end, op_idx := op_idx s3 + 1\<rparr>"
    by (simp only: sum.inject)
  show ?thesis
  proof (rule that [OF op c ws k xg, of ?e])
    show "events s' = events s @ [?e]" using fr s' by simp
    show "case_id ?e = cur_case_id s" using fr by simp
    show "defect_detected ?e \<longrightarrow> operation_id ?e = ''OP5''" using fr by simp
    show "workstation_availability s' =
       (workstation_availability s)(operation_id ?e \<mapsto> ws[k := timestamp_end ?e])"
      using fr s' by simp
    show "current_time s' = timestamp_end ?e" using s' by simp
    show "cur_case_id s' = cur_case_id s" using fr s' by simp
    show "case_arrival_time s' = case_arrival_time s" using fr s' by simp
    show "operation_counts s' = (operation_counts s)(operation_id ?e \<mapsto> c + 1)"
      using fr s' by simp
  qed simp_all
qed

section \<open>Lifting to the returned table\<close>

lemma generate_Inr:
  assumes "generate_event_log R cfg w n sd seed = Some (Inr rows, w')"
  obtains t where "simulate R cfg w n sd seed = Some (Inr t)" "events t \<noteq> []"
    "rows = map add_duration (sort_key (\<lambda>e. (timestamp_start e, case_id e)) (events t))"
  using assms unfolding generate_event_log_def
  by (auto split: option.splits sum.splits prod.splits if_splits)

lemma events_all:
  assumes run: "simulate R cfg w n sd seed = Some (Inr t)"
    and new: "\<And>u v e. op_idx u < int (length (operation_sequence cfg)) \<Longrightarrow>
               visit R cfg u = Inr v \<Longrightarrow> events v = events u @ [e] \<Longrightarrow> P e"
  shows "\<forall>e \<in> set (events t). P e"
proof (rule simulate_rule [OF run, where I = "\<lambda>ds s. \<forall>e \<in> set (events s). P e"])
  show "\<forall>e\<in>set (events (initial_sim cfg sd r g)). P e" for r :: 'a and g :: 'b
    by (simp add: initial_sim_def)
next
  fix ds :: "nat list" and u :: "('a, 'b) sim" and n
  assume "\<forall>e\<in>set (events u). P e"
  then show "\<forall>e\<in>set (events (begin_case R cfg u n)). P e"
    by (simp add: begin_case_def Let_def split: prod.splits)
next
  fix ds :: "nat list" and u v :: "('a, 'b) sim"
  assume "ds \<noteq> []" and inv: "\<forall>e\<in>set (events u). P e"
    and lt: "op_idx u < int (length (operation_sequence cfg))"
    and v: "visit R cfg u = Inr v"
  from visit_InrE [OF v] obtain e where e: "events v = events u @ [e]" by metis
  from new [OF lt v e] inv e show "\<forall>e\<in>set (events v). P e" by simp
qed

section \<open>Identifiers and roundings\<close>

lemma digit_val_digit_char: "d < 10 \<Longrightarrow> digit_val (digit_char d) = d"
proof -
  have "\<forall>d \<in> set [0..<10]. digit_val (digit_char d) = d" by code_simp
  then show "d < 10 \<Longrightarrow> digit_val (digit_char d) = d" by simp
qed

lemma val_of_snoc: "val_of (s @ [c]) = 10 * val_of s + digit_val c"
  by (simp add: val_of_def)

lemma val_of_str_nat: "val_of (str_nat n) = n"
proof (induction n rule: str_nat.induct)
  case (1 n)
  show ?case
  proof (cases "n < 10")
    case True
    then show ?thesis
      by (subst str_nat.simps) (simp add: val_of_def digit_val_digit_char)
  next
    case False
    with 1 have "val_of (str_nat (n div 10)) = n div 10" by simp
    with False show ?thesis
      by (subst str_nat.simps) (simp add: val_of_snoc digit_val_digit_char)
  qed
qed

lemma val_of_zeros: "val_of (replicate k CHR ''0'' @ s) = val_of s"
proof -
  have z: "digit_val CHR ''0'' = 0" by (simp add: digit_val_def)
  have "foldl (\<lambda>a c. 10 * a + digit_val c) 0 (replicate k CHR ''0'') = 0"
    by (induction k) (simp_all add: z)
  then show ?thesis by (simp add: val_of_def)
qed

lemma str_nat_inj: "str_nat a = str_nat b \<Longrightarrow> a = b"
  by (metis val_of_str_nat)

lemma case_id_inj:
  "''CASE-'' @ zfill4 (str_nat a) = ''CASE-'' @ zfill4 (str_nat b) \<Longrightarrow> a = b"
proof -
  assume "''CASE-'' @ zfill4 (str_nat a) = ''CASE-'' @ zfill4 (str_nat b)"
  then have "zfill4 (str_nat a) = zfill4 (str_nat b)" by simp
  then have "val_of (zfill4 (str_nat a)) = val_of (zfill4 (str_nat b))" by simp
  then show ?thesis by (simp add: zfill4_def val_of_zeros val_of_str_nat)
qed

lemma slot_label_inj:
  "opid @ ''_WS'' @ str_nat (a + 1) = opid @ ''_WS'' @ str_nat (b + 1) \<Longrightarrow> a = b"
  using str_nat_inj [of "a + 1" "b + 1"] by simp

lemma round_half_even_nonneg: "0 \<le> x \<Longrightarrow> 0 \<le> round_half_even x"
  unfolding round_half_even_def Let_def by (auto simp: zero_le_floor intro: add_nonneg_nonneg)

lemma pow2_pos: "0 < pow2 n"
  by (simp add: pow2_def)

lemma fl53_nonneg: "0 \<le> y \<Longrightarrow> 0 \<le> fl53 y"
  unfolding fl53_def
  by (auto intro!: mult_nonneg_nonneg round_half_even_nonneg divide_nonneg_pos
      simp: pow2_pos less_imp_le)

lemma timedelta_nonneg: "0 \<le> x \<Longrightarrow> 0 \<le> timedelta_minutes x"
proof -
  assume x: "0 \<le> x"
  have "0 \<le> 60000000 * (x - of_int \<lfloor>x\<rfloor>)" by simp
  then have a: "0 \<le> round_half_even (fl53 (60000000 * (x - of_int \<lfloor>x\<rfloor>)))"
    by (intro round_half_even_nonneg fl53_nonneg)
  have b: "0 \<le> \<lfloor>x\<rfloor>" using x by simp
  have "timedelta_minutes x =
      \<lfloor>x\<rfloor> * 60000000 + round_half_even (fl53 (60000000 * (x - of_int \<lfloor>x\<rfloor>)))"
    using x by (simp only: timedelta_minutes_def Let_def if_True)
  with a b show ?thesis by linarith
qed

lemma timedelta_pos: "1 \<le> x \<Longrightarrow> 0 < timedelta_minutes x"
proof -
  assume x: "1 \<le> x"
  have "0 \<le> 60000000 * (x - of_int \<lfloor>x\<rfloor>)" by simp
  then have a: "0 \<le> round_half_even (fl53 (60000000 * (x - of_int \<lfloor>x\<rfloor>)))"
    by (intro round_half_even_nonneg fl53_nonneg)
  have b: "1 \<le> \<lfloor>x\<rfloor>" using x by (simp add: le_floor_iff)
  have "0 \<le> x" using x by simp
  then have "timedelta_minutes x =
      \<lfloor>x\<rfloor> * 60000000 + round_half_even (fl53 (60000000 * (x - of_int \<lfloor>x\<rfloor>)))"
    by (simp only: timedelta_minutes_def Let_def if_True)
  with a b show ?thesis by linarith
qed

lemma round2_nonneg: "0 \<le> x \<Longrightarrow> 0 \<le> round2 x"
  unfolding round2_def using round_half_even_nonneg [of "x * 100"] by simp

section \<open>Recorded durations\<close>

lemma rows_events:
  assumes "generate_event_log R cfg w n sd seed = Some (Inr rows, w')"
    and "r \<in> set rows"
  obtains t e where "simulate R cfg w n sd seed = Some (Inr t)" "e \<in> set (events t)"
    "r = add_duration e"
proof -
  from generate_Inr [OF assms(1)] obtain t where t: "simulate R cfg w n sd seed = Some (Inr t)"
    and rows: "rows = map add_duration (sort_key (\<lambda>e. (timestamp_start e, case_id e)) (events t))"
    by blast
  from assms(2) rows obtain e where "e \<in> set (events t)" "r = add_duration e" by auto
  with t that show ?thesis by blast
qed

lemma conservation_events:
  assumes run: "simulate R catalog w n sd seed = Some (Inr t)" and e: "e \<in> set (events t)"
  shows "\<exists>op x g. get_operation_by_id catalog (operation_id e) = Inr op \<and>
           x = fst (np_normal R (avg_duration_minutes op) (std_deviation_minutes op) g) \<and>
           cycle_time_minutes e = round2 (max 5 x) \<and>
           ev_setup_time_minutes e = round2 (setup_time_minutes op) \<and>
           total_time_minutes e = round2 (fl53 (max 5 x + setup_time_minutes op)) \<and>
           timestamp_end e = timestamp_start e + timedelta_minutes (fl53 (max 5 x + setup_time_minutes op))"
    (is "?P e")
proof -
  have "\<forall>e \<in> set (events t). ?P e"
  proof (rule events_all [OF run])
    fix u v :: "('a, 'b) sim" and e
    assume v: "visit R catalog u = Inr v" and ev: "events v = events u @ [e]"
    from visit_InrE [OF v] obtain op c ws k x g e' where
      op: "get_operation_by_id catalog (operation_sequence catalog ! nat (op_idx u)) = Inr op"
      and xg: "np_normal R (avg_duration_minutes op) (std_deviation_minutes op) (np_random u) = (x, g)"
      and ev': "events v = events u @ [e']"
      and f: "operation_id e' = operation_sequence catalog ! nat (op_idx u)"
        "timestamp_end e' = timestamp_start e' + timedelta_minutes (fl53 (max 5 x + setup_time_minutes op))"
        "cycle_time_minutes e' = round2 (max 5 x)"
        "ev_setup_time_minutes e' = round2 (setup_time_minutes op)"
        "total_time_minutes e' = round2 (fl53 (max 5 x + setup_time_minutes op))"
      by metis
    from ev ev' have [simp]: "e' = e" by simp
    with op xg f show "?P e"
      by (intro exI [of _ op] exI [of _ x] exI [of _ "np_random u"]) simp
  qed
  with e show ?thesis by blast
qed


lemma add_duration_sel [simp]:
  "case_id (add_duration e) = case_id e"
  "operation_id (add_duration e) = operation_id e"
  "timestamp_start (add_duration e) = timestamp_start e"
  "timestamp_end (add_duration e) = timestamp_end e"
  "resource (add_duration e) = resource e"
  "is_rework (add_duration e) = is_rework e"
  "rework_count (add_duration e) = rework_count e"
  "wait_time_minutes (add_duration e) = wait_time_minutes e"
  "cycle_time_minutes (add_duration e) = cycle_time_minutes e"
  "ev_setup_time_minutes (add_duration e) = ev_setup_time_minutes e"
  "total_time_minutes (add_duration e) = total_time_minutes e"
  "defect_detected (add_duration e) = defect_detected e"
  "duration_minutes (add_duration e) = total_minutes (timestamp_end e - timestamp_start e)"
  by (simp_all add: add_duration_def)

text \<open>
  Claim C8, as amended. The cycle duration is \<open>max 5 x\<close> for a normal draw \<open>x\<close> with the
  stage's mean and deviation, the total duration is the float sum of the cycle and setup
  durations, and the end instant is the start instant plus that total. The recorded
  cycle, setup and total durations are each rounded to two decimals on their own: the
  recorded total is the rounding of the sum, not the sum of the roundings.
\<close>

theorem recorded_durations:
  assumes "generate_event_log R catalog w num_cases start_date seed = Some (Inr rows, w')"
    and "r \<in> set rows"
  shows "\<exists>op x g. get_operation_by_id catalog (operation_id r) = Inr op \<and>
           x = fst (np_normal R (avg_duration_minutes op) (std_deviation_minutes op) g) \<and>
           cycle_time_minutes r = round2 (max 5 x) \<and>
           ev_setup_time_minutes r = round2 (setup_time_minutes op) \<and>
           total_time_minutes r = round2 (fl53 (max 5 x + setup_time_minutes op)) \<and>
           timestamp_end r = timestamp_start r + timedelta_minutes (fl53 (max 5 x + setup_time_minutes op))"
proof -
  from rows_events [OF assms] obtain t e where
    t: "simulate R catalog w num_cases start_date seed = Some (Inr t)"
    and e: "e \<in> set (events t)" and r: "r = add_duration e"
    by blast
  from conservation_events [OF t e] show ?thesis unfolding r by simp
qed

theorem recorded_durations_witness:
  "\<exists>op x g. get_operation_by_id catalog
             (operation_id (hd (rows_of (generate_event_log (replay_rng [] (9 / 10) (25 / 1000))
                catalog ([], ()) 1 0 42)))) = Inr op \<and>
           x = fst (np_normal (replay_rng [] (9 / 10) (25 / 1000))
                 (avg_duration_minutes op) (std_deviation_minutes op) g) \<and>
           cycle_time_minutes (hd (rows_of (generate_event_log (replay_rng [] (9 / 10) (25 / 1000))
                catalog ([], ()) 1 0 42))) = round2 (max 5 x) \<and>
           total_time_minutes (hd (rows_of (generate_event_log (replay_rng [] (9 / 10) (25 / 1000))
                catalog ([], ()) 1 0 42))) = round2 (fl53 (max 5 x + setup_time_minutes op))"
proof -
  let ?G = "generate_event_log (replay_rng [] (9 / 10) (25 / 1000)) catalog ([], ()) 1 0 42"
  have run: "?G = Some (Inr (rows_of ?G), ([], ()))" by code_simp
  have mem: "hd (rows_of ?G) \<in> set (rows_of ?G)" by code_simp
  from recorded_durations [OF run mem] show ?thesis by blast
qed

text \<open>
  Conservation fails on the recorded values. With a draw of 15.025 minutes at the first
  stage (setup 5.0), the recorded cycle duration is 15.03 and the recorded total 20.02:
  the float nearest to 15.025 lies above the tie, the float sum 20.025 below it.
\<close>

theorem recorded_durations_counterexample:
  "map (\<lambda>r. (cycle_time_minutes r, ev_setup_time_minutes r, total_time_minutes r))
     (take 1 (rows_of (generate_event_log (replay_rng [] (9 / 10) (25 / 1000))
        catalog ([], ()) 1 0 42))) = [(1503 / 100, 5, 2002 / 100)] \<and>
   (2002 / 100 :: rat) \<noteq> 1503 / 100 + 5"
  by code_simp

section \<open>Determinism\<close>

text \<open>
  Claim C1. For a fixed seed and case count, two independent runs produce the same Event
  Log: the outcome of \<open>generate_event_log\<close> (the table, an exception, or a loop that
  never ends) does not depend on the state in which the call finds the two global
  generators, since both are seeded first.
\<close>

theorem generate_event_log_deterministic:
  "map_option fst (generate_event_log R cfg w1 num_cases start_date seed) =
   map_option fst (generate_event_log R cfg w2 num_cases start_date seed)"
  unfolding generate_event_log_def simulate_def
  by (simp add: Let_def)

end
